theory Spec2Isabelle
  imports Main "HOL-Library.AList"
begin

section \<open>Go strings and the functions of package strings that the controller calls\<close>

text \<open>
  A Go string is a sequence of bytes, here a \<^typ>\<open>string\<close> (a list of 8-bit characters).
  The functions below are the ones \<^verbatim>\<open>controllers/argo_cluster.go\<close> calls from the
  standard library: \<^verbatim>\<open>strings.HasPrefix\<close>, \<^verbatim>\<open>strings.TrimSuffix\<close>,
  \<^verbatim>\<open>strings.Index\<close> and \<^verbatim>\<open>strings.Split\<close>.
\<close>

definition HasPrefix :: "string \<Rightarrow> string \<Rightarrow> bool" where
  "HasPrefix s p = (length p \<le> length s \<and> take (length p) s = p)"

definition HasSuffix :: "string \<Rightarrow> string \<Rightarrow> bool" where
  "HasSuffix s suf = (length suf \<le> length s \<and> drop (length s - length suf) s = suf)"

definition TrimSuffix :: "string \<Rightarrow> string \<Rightarrow> string" where
  "TrimSuffix s suf = (if HasSuffix s suf then take (length s - length suf) s else s)"

text \<open>
  \<^verbatim>\<open>strings.Index(s, sep)\<close>: the index of the first occurrence of \<open>sep\<close> in \<open>s\<close>;
  Go answers \<open>-1\<close> when there is none, the model answers \<open>None\<close>.
\<close>

fun Index :: "string \<Rightarrow> string \<Rightarrow> nat option" where
  "Index [] sep = (if sep = [] then Some 0 else None)"
| "Index (c # cs) sep =
     (if HasPrefix (c # cs) sep then Some 0 else map_option Suc (Index cs sep))"

text \<open>
  \<^verbatim>\<open>strings.Split(s, sep)\<close> is \<^verbatim>\<open>genSplit(s, sep, 0, -1)\<close>: while \<open>sep\<close> occurs in the
  rest of \<open>s\<close>, the text before its first occurrence is one piece and the scan goes on
  after that occurrence; what is left at the end is the last piece. With an empty
  separator Go splits after each UTF-8 sequence, the model after each byte; the controller
  never splits at an empty separator.
\<close>

function Split :: "string \<Rightarrow> string \<Rightarrow> string list" where
  "Split s sep =
     (if sep = [] then map (\<lambda>c. [c]) s
      else case Index s sep of
             None \<Rightarrow> [s]
           | Some m \<Rightarrow> take m s # Split (drop (m + length sep) s) sep)"
  by pat_completeness auto
termination
proof (relation "measure (\<lambda>(s, sep). length s)")
  show "wf (measure (\<lambda>(s, sep). length s))" by simp
next
  fix s sep :: string and m :: nat
  assume sep: "sep \<noteq> []" and idx: "Index s sep = Some m"
  from sep idx have "s \<noteq> []" by (cases s) auto
  with sep show "((drop (m + length sep) s, sep), (s, sep)) \<in> measure (\<lambda>(s, sep). length s)"
    by simp
qed

declare Split.simps [simp del]

section \<open>Constants and key templates\<close>

text \<open>The metadata kinds: \<^verbatim>\<open>metaAnnotations = iota\<close> is 0 and \<^verbatim>\<open>metaLabels\<close> is 1.\<close>

definition metaAnnotations :: int where
  "metaAnnotations = 0"

definition metaLabels :: int where
  "metaLabels = 1"

text \<open>
  \<^verbatim>\<open>fmt.Sprintf(clusterTakeAlongKeyFmt, x)\<close> and
  \<^verbatim>\<open>fmt.Sprintf(clusterTakenFromClusterKeyFmt, x)\<close>: the one \<^verbatim>\<open>%s\<close> of each format is
  replaced by the string \<open>x\<close>.
\<close>

definition clusterTakeAlongKeyFmt :: "string \<Rightarrow> string" where
  "clusterTakeAlongKeyFmt x = ''take-along-'' @ x @ ''.capi-to-argocd.''"

definition clusterTakenFromClusterKeyFmt :: "string \<Rightarrow> string" where
  "clusterTakenFromClusterKeyFmt x = ''taken-from-cluster-'' @ x @ ''.capi-to-argocd.''"

text \<open>
  A Go \<^verbatim>\<open>map[string]string\<close> is the list of its entries, in the order in which a
  \<^verbatim>\<open>range\<close> statement visits them. Go leaves that order open, so a property of the code
  is one that holds for every such list. The keys of a map are distinct; a lookup
  \<^verbatim>\<open>m[k]\<close> is \<^term>\<open>map_of m k\<close>, an assignment \<^verbatim>\<open>m[k] = v\<close> is
  \<^term>\<open>AList.update k v m\<close>, and both the nil map and the empty map are \<^term>\<open>[]\<close>
  (they read alike: length 0, no key found, no iteration).
\<close>

type_synonym gomap = "(string \<times> string) list"

definition GetArgoCommonLabels :: gomap where
  "GetArgoCommonLabels =
     [(''capi-to-argocd/owned'', ''true''),
      (''argocd.argoproj.io/secret-type'', ''cluster'')]"

record MetaType =
  MetaType_Name :: string
  TakeAlong :: string
  TakenFrom :: string

definition GetMetaType :: "int \<Rightarrow> MetaType" where
  "GetMetaType metaType =
     (let name = (if metaType = metaAnnotations then ''annotation''
                  else if metaType = metaLabels then ''label''
                  else [])
      in \<lparr>MetaType_Name = name,
          TakeAlong = clusterTakeAlongKeyFmt name,
          TakenFrom = clusterTakenFromClusterKeyFmt name\<rparr>)"

section \<open>Take-along metadata\<close>

text \<open>
  A Go \<^verbatim>\<open>error\<close> made by \<^verbatim>\<open>fmt.Errorf\<close> carries its formatted message;
  \<open>Error\<close> is its method \<^verbatim>\<open>Error()\<close>.
\<close>

datatype error = Errorf string

fun Error :: "error \<Rightarrow> string" where
  "Error (Errorf msg) = msg"

text \<open>
  \<^verbatim>\<open>extractTakeAlongMeta(metaType, key)\<close> returns \<^verbatim>\<open>(string, error)\<close>: \<open>Inl\<close> is the
  return with an error, \<open>Inr\<close> the return with \<^verbatim>\<open>nil\<close> as error.
\<close>

definition extractTakeAlongMeta :: "string \<Rightarrow> string \<Rightarrow> error + string" where
  "extractTakeAlongMeta metaType key =
     (let takeAlong = clusterTakeAlongKeyFmt metaType in
      if HasPrefix key takeAlong then
        (let splitResult = Split key takeAlong in
         if length splitResult \<ge> 2 \<and> splitResult ! 1 \<noteq> [] then Inr (splitResult ! 1)
         else Inl (Errorf (''invalid take-along '' @ metaType @ ''. missing key after ''
                 @ [CHR 0x27] @ ''/'' @ [CHR 0x27] @ '': '' @ key)))
      else Inr [])"

text \<open>
  The fields of \<^verbatim>\<open>clusterv1.Cluster\<close> (a type of the cluster-api library) that the
  controller reads: the name, the namespace, the labels and the annotations of its
  object metadata.
\<close>

record clusterv1_Cluster =
  Cluster_Name :: string
  Cluster_Namespace :: string
  Cluster_Labels :: gomap
  Cluster_Annotations :: gomap

text \<open>
  The first loop of \<^verbatim>\<open>buildTakeAlongArray\<close> (lines 166 to 174): it visits the keys of the
  metadata map, returns at the first key whose extraction fails, and appends every
  non-empty extracted key to \<open>takeAlongArray\<close>.
\<close>

fun scanKeys :: "string \<Rightarrow> string list \<Rightarrow> string list \<Rightarrow> error + string list" where
  "scanKeys metaName [] takeAlongArray = Inr takeAlongArray"
| "scanKeys metaName (k # ks) takeAlongArray =
     (case extractTakeAlongMeta metaName k of
        Inl err \<Rightarrow> Inl err
      | Inr l \<Rightarrow> scanKeys metaName ks (if l \<noteq> [] then takeAlongArray @ [l] else takeAlongArray))"

text \<open>The message of line 183, for the take-along key \<open>key\<close> that the map does not hold.\<close>

definition notFoundMessage :: "string \<Rightarrow> string \<Rightarrow> string \<Rightarrow> string \<Rightarrow> string" where
  "notFoundMessage metaName key name namespace =
     ''take-along '' @ metaName @ '' '' @ [CHR 0x27] @ key @ [CHR 0x27]
       @ '' not found on cluster resource: '' @ name @ '', namespace: '' @ namespace
       @ ''. Ignoring''"

text \<open>
  The second loop (lines 180 to 189), over \<open>takeAlongArray\<close>; its state is the pair of
  \<open>takeAlongMap\<close> and \<open>errors\<close>.
\<close>

fun copyKeys ::
  "MetaType \<Rightarrow> string \<Rightarrow> string \<Rightarrow> gomap \<Rightarrow> string list \<Rightarrow> gomap \<times> string list
     \<Rightarrow> gomap \<times> string list" where
  "copyKeys metaName name namespace meta [] (takeAlongMap, errors) = (takeAlongMap, errors)"
| "copyKeys metaName name namespace meta (key # keys) (takeAlongMap, errors) =
     (if key \<noteq> [] then
        (case map_of meta key of
           None \<Rightarrow>
             copyKeys metaName name namespace meta keys
               (takeAlongMap,
                errors @ [notFoundMessage (MetaType_Name metaName) key name namespace])
         | Some v \<Rightarrow>
             copyKeys metaName name namespace meta keys
               (AList.update (TakenFrom metaName @ key) []
                  (AList.update key v takeAlongMap),
                errors))
      else copyKeys metaName name namespace meta keys (takeAlongMap, errors))"

definition buildTakeAlongArray :: "clusterv1_Cluster \<Rightarrow> int \<Rightarrow> gomap \<times> string list" where
  "buildTakeAlongArray cluster metaType =
     (let name = Cluster_Name cluster;
          namespace = Cluster_Namespace cluster;
          metaName = GetMetaType metaType
      in if metaType = metaAnnotations \<or> metaType = metaLabels then
           (let meta = (if metaType = metaAnnotations then Cluster_Annotations cluster
                        else Cluster_Labels cluster)
            in case scanKeys (MetaType_Name metaName) (map fst meta) [] of
                 Inl err \<Rightarrow> ([], [Error err])
               | Inr takeAlongArray \<Rightarrow>
                   (if length takeAlongArray > 0 then
                      copyKeys metaName name namespace meta takeAlongArray ([], [])
                    else ([], [])))
         else ([], []))"

section \<open>Names\<close>

text \<open>
  The process-wide configuration read by the name builders. \<^verbatim>\<open>ArgoNamespace\<close> is the
  package variable of line 22; \<^verbatim>\<open>EnableNamespacedNames\<close> is a package variable that
  line 206 reads and another file of the package declares. No function here writes
  either, so the model takes both as a parameter.
\<close>

record Globals =
  ArgoNamespace :: string
  EnableNamespacedNames :: bool

text \<open>\<^verbatim>\<open>types.NamespacedName\<close> of the Kubernetes library.\<close>

record types_NamespacedName =
  NamespacedName_Name :: string
  NamespacedName_Namespace :: string

definition BuildClusterName :: "Globals \<Rightarrow> string \<Rightarrow> string \<Rightarrow> string" where
  "BuildClusterName g s namespace =
     (let prefix = (if EnableNamespacedNames g then [] @ namespace @ ''-'' else [])
      in prefix @ s)"

definition BuildNamespacedName :: "Globals \<Rightarrow> string \<Rightarrow> string \<Rightarrow> types_NamespacedName" where
  "BuildNamespacedName g s namespace =
     \<lparr>NamespacedName_Name =
        ''cluster-'' @ BuildClusterName g (TrimSuffix s ''-kubeconfig'') namespace,
      NamespacedName_Namespace = ArgoNamespace g\<rparr>"

section \<open>The Argo cluster and its construction\<close>

text \<open>A Go pointer to a string (\<^verbatim>\<open>*string\<close>) is a \<^typ>\<open>string option\<close>: \<open>None\<close> is nil.\<close>

record ArgoTLS =
  CaData :: "string option"
  CertData :: "string option"
  KeyData :: "string option"

record ArgoConfig =
  TLSClientConfig :: "ArgoTLS option"
  BearerToken :: "string option"

record ArgoCluster =
  NamespacedName :: types_NamespacedName
  ClusterName :: string
  ClusterServer :: string
  ClusterLabels :: gomap
  TakeAlongAnnotations :: gomap
  TakeAlongLabels :: gomap
  ClusterConfig :: ArgoConfig

text \<open>
  Modelled from the spec: the types \<^verbatim>\<open>CapiCluster\<close> and \<^verbatim>\<open>KubeConfig\<close> are declared in
  a file of the package that is not among the sources. The records below hold the fields
  that \<^verbatim>\<open>NewArgoCluster\<close> reads, typed as it uses them: \<^verbatim>\<open>Clusters\<close> and \<^verbatim>\<open>Users\<close> are
  indexed (the listed clusters and users of the kubeconfig), the CA data of a cluster is
  a string (line 122 takes its address), the token, the certificate and the key of a user
  are pointers to strings (lines 120, 123 and 124 store them in pointer fields).
\<close>

record KubeCluster =
  Server :: string
  KubeCluster_CaData :: string

record NamedCluster =
  NamedCluster_Name :: string
  Cluster :: KubeCluster

record KubeUser =
  Token :: "string option"
  KubeUser_CertData :: "string option"
  KubeUser_KeyData :: "string option"

record NamedUser =
  User :: KubeUser

record KubeConfig =
  Clusters :: "NamedCluster list"
  Users :: "NamedUser list"

record CapiCluster =
  CapiCluster_Name :: string
  CapiCluster_Namespace :: string
  KubeConfig :: KubeConfig

text \<open>
  The fields of \<^verbatim>\<open>corev1.Secret\<close> (a type of the Kubernetes library) that the controller
  reads or sets: the kind and the API version of its type metadata, the name, the
  namespace and the labels of its object metadata, and its data.
\<close>

record corev1_Secret =
  Secret_Kind :: string
  Secret_APIVersion :: string
  Secret_Name :: string
  Secret_Namespace :: string
  Secret_Labels :: gomap
  Secret_Data :: "(string \<times> string) list"

text \<open>
  Indexing a slice out of its range panics in Go; \<^verbatim>\<open>NewArgoCluster\<close> indexes
  \<^verbatim>\<open>Clusters[0]\<close> and \<^verbatim>\<open>Users[0]\<close>.
\<close>

datatype panic = IndexOutOfRange

text \<open>
  \<^verbatim>\<open>NewArgoCluster(c, s, cluster)\<close>. The pointers \<open>c\<close> and \<open>s\<close> are taken to be non-nil
  (the function dereferences both without a test); \<open>cluster\<close> may be nil, which is
  \<open>None\<close>. The result is the list of lines passed to \<^verbatim>\<open>log.Info\<close>, in order, and what
  the function does after logging: a panic, or the return of the Argo cluster together
  with the error, which is always nil.
\<close>

definition NewArgoCluster ::
  "Globals \<Rightarrow> CapiCluster \<Rightarrow> corev1_Secret \<Rightarrow> clusterv1_Cluster option
     \<Rightarrow> string list \<times> (panic + ArgoCluster \<times> error option)" where
  "NewArgoCluster g c s cluster =
     (let (takeAlongLabels, errList1) =
            (case cluster of
               None \<Rightarrow> ([], [])
             | Some cl \<Rightarrow> buildTakeAlongArray cl metaLabels);
          (takeAlongAnnotations, errList2) =
            (case cluster of
               None \<Rightarrow> ([], [])
             | Some cl \<Rightarrow> buildTakeAlongArray cl metaAnnotations)
      in (errList1 @ errList2,
          case Clusters (KubeConfig c) of
            [] \<Rightarrow> Inl IndexOutOfRange
          | cluster0 # _ \<Rightarrow>
              (case Users (KubeConfig c) of
                 [] \<Rightarrow> Inl IndexOutOfRange
               | user0 # _ \<Rightarrow>
                   Inr (\<lparr>NamespacedName =
                           BuildNamespacedName g (Secret_Name s) (Secret_Namespace s),
                         ClusterName =
                           BuildClusterName g (NamedCluster_Name cluster0) (Secret_Namespace s),
                         ClusterServer = Server (Cluster cluster0),
                         ClusterLabels =
                           [(''capi-to-argocd/cluster-secret-name'',
                             CapiCluster_Name c @ ''-kubeconfig''),
                            (''capi-to-argocd/cluster-namespace'', CapiCluster_Namespace c)],
                         TakeAlongAnnotations = takeAlongAnnotations,
                         TakeAlongLabels = takeAlongLabels,
                         ClusterConfig =
                           \<lparr>TLSClientConfig =
                              Some \<lparr>CaData = Some (KubeCluster_CaData (Cluster cluster0)),
                                    CertData = KubeUser_CertData (User user0),
                                    KeyData = KubeUser_KeyData (User user0)\<rparr>,
                            BearerToken = Token (User user0)\<rparr>\<rparr>,
                        None))))"

section \<open>The generated secret\<close>

text \<open>
  \<^verbatim>\<open>json.Marshal(a.ClusterConfig)\<close> of the standard library, for the two structs of lines
  71 to 88. Every field is a pointer tagged \<^verbatim>\<open>omitempty\<close>: a nil pointer writes
  nothing, any other pointer writes the field's name and the value it points to (also an
  empty string). The model first builds the JSON value, then writes its bytes the way
  the encoder does: \<^verbatim>\<open>{\<close> before the first field and a comma before each later one, the
  name in double quotes, a colon and the value; \<^verbatim>\<open>{}\<close> for an object without a field.
  How the encoder quotes and escapes a string value is the parameter \<open>quote\<close>.
\<close>

datatype json = JString string | JObject "(string \<times> json) list"

definition omitempty :: "string \<Rightarrow> 'a option \<Rightarrow> ('a \<Rightarrow> json) \<Rightarrow> (string \<times> json) list" where
  "omitempty name p enc = (case p of None \<Rightarrow> [] | Some x \<Rightarrow> [(name, enc x)])"

definition marshalArgoTLS :: "ArgoTLS \<Rightarrow> json" where
  "marshalArgoTLS t =
     JObject (omitempty ''caData'' (CaData t) JString
            @ omitempty ''certData'' (CertData t) JString
            @ omitempty ''keyData'' (KeyData t) JString)"

definition marshalArgoConfig :: "ArgoConfig \<Rightarrow> json" where
  "marshalArgoConfig c =
     JObject (omitempty ''tlsClientConfig'' (TLSClientConfig c) marshalArgoTLS
            @ omitempty ''bearerToken'' (BearerToken c) JString)"

fun encodeValue :: "(string \<Rightarrow> string) \<Rightarrow> json \<Rightarrow> string"
  and encodeFields :: "(string \<Rightarrow> string) \<Rightarrow> char \<Rightarrow> (string \<times> json) list \<Rightarrow> string" where
  "encodeValue quote (JString s) = quote s"
| "encodeValue quote (JObject fs) =
     (if fs = [] then ''{}'' else encodeFields quote (CHR ''{'') fs @ ''}'')"
| "encodeFields quote next [] = []"
| "encodeFields quote next ((name, v) # fs) =
     [next] @ [CHR 0x22] @ name @ [CHR 0x22] @ '':'' @ encodeValue quote v
       @ encodeFields quote (CHR '','') fs"

definition json_Marshal :: "(string \<Rightarrow> string) \<Rightarrow> ArgoConfig \<Rightarrow> error + string" where
  "json_Marshal quote c = Inr (encodeValue quote (marshalArgoConfig c))"

text \<open>
  A loop \<^verbatim>\<open>for key, value := range m { mergedLabels[key] = value }\<close> (lines 223 to 231),
  over the entries of \<open>m\<close> in the order the loop visits them.
\<close>

fun assignAll :: "gomap \<Rightarrow> gomap \<Rightarrow> gomap" where
  "assignAll mergedLabels [] = mergedLabels"
| "assignAll mergedLabels ((key, val) # rest) =
     assignAll (AList.update key val mergedLabels) rest"

definition ConvertToSecret :: "(string \<Rightarrow> string) \<Rightarrow> ArgoCluster \<Rightarrow> error + corev1_Secret" where
  "ConvertToSecret quote a =
     (case json_Marshal quote (ClusterConfig a) of
        Inl err \<Rightarrow> Inl err
      | Inr c \<Rightarrow>
          (let mergedLabels =
                 assignAll
                   (assignAll (assignAll [] GetArgoCommonLabels) (ClusterLabels a))
                   (TakeAlongLabels a)
           in Inr \<lparr>Secret_Kind = ''Secret'',
                   Secret_APIVersion = ''v1'',
                   Secret_Name = NamespacedName_Name (NamespacedName a),
                   Secret_Namespace = NamespacedName_Namespace (NamespacedName a),
                   Secret_Labels = mergedLabels,
                   Secret_Data =
                     [(''name'', ClusterName a),
                      (''server'', ClusterServer a),
                      (''config'', c)]\<rparr>))"

section \<open>Notions used to state the properties\<close>

text \<open>
  The metadata map that \<^verbatim>\<open>buildTakeAlongArray\<close> scans for a kind (the \<^verbatim>\<open>switch\<close> of
  lines 153 to 162); for any other selector the function scans nothing.
\<close>

definition selectedMeta :: "clusterv1_Cluster \<Rightarrow> int \<Rightarrow> gomap" where
  "selectedMeta cluster metaType =
     (if metaType = metaAnnotations then Cluster_Annotations cluster
      else if metaType = metaLabels then Cluster_Labels cluster
      else [])"

text \<open>
  The remainders, after the take-along prefix, of the keys that start with it, in the
  order of the keys: the target keys that the specification speaks of.
\<close>

definition takeAlongTargets :: "string \<Rightarrow> string list \<Rightarrow> string list" where
  "takeAlongTargets kind ks =
     map (drop (length (clusterTakeAlongKeyFmt kind)))
       (filter (\<lambda>k. HasPrefix k (clusterTakeAlongKeyFmt kind)) ks)"

text \<open>
  A key whose remainder after the take-along prefix is not empty and does not hold the
  prefix again.
\<close>

definition plainKey :: "string \<Rightarrow> string \<Rightarrow> bool" where
  "plainKey kind k =
     (let rest = drop (length (clusterTakeAlongKeyFmt kind)) k
      in rest \<noteq> [] \<and> Index rest (clusterTakeAlongKeyFmt kind) = None)"

text \<open>
  A cluster whose labels hold the malformed key beside a valid take-along key and its
  target, and whose annotations hold one valid take-along key and its target. The
  malformed label is the last one visited.
\<close>

definition malformedCluster :: clusterv1_Cluster where
  "malformedCluster =
     \<lparr>Cluster_Name = ''workload'',
      Cluster_Namespace = ''team-a'',
      Cluster_Labels =
        [(''take-along-label.capi-to-argocd.foo'', []),
         (''foo'', ''v''),
         (''take-along-label.capi-to-argocd.'', [])],
      Cluster_Annotations =
        [(''take-along-annotation.capi-to-argocd.owner'', []),
         (''owner'', ''ops'')]\<rparr>"

text \<open>A cluster with one take-along label, its target and a label that is not taken along.\<close>

definition fooCluster :: clusterv1_Cluster where
  "fooCluster =
     \<lparr>Cluster_Name = ''workload'',
      Cluster_Namespace = ''team-a'',
      Cluster_Labels =
        [(''env'', ''prod''),
         (''take-along-label.capi-to-argocd.foo'', ''x''),
         (''foo'', ''v'')],
      Cluster_Annotations = []\<rparr>"

text \<open>The names of the fields of a JSON object, in the order in which they are written.\<close>

fun fieldNames :: "json \<Rightarrow> string list" where
  "fieldNames (JObject fs) = map fst fs"
| "fieldNames (JString s) = []"

text \<open>
  What the encoder writes for a string that has no character to escape: the string
  between double quotes.
\<close>

definition quoteAscii :: "string \<Rightarrow> string" where
  "quoteAscii s = [CHR 0x22] @ s @ [CHR 0x22]"

text \<open>
  An Argo cluster whose take-along labels hold a key that is also one of the two static
  common labels.
\<close>

definition collidingArgoCluster :: ArgoCluster where
  "collidingArgoCluster =
     \<lparr>NamespacedName =
        \<lparr>NamespacedName_Name = ''cluster-prod'', NamespacedName_Namespace = ''argocd''\<rparr>,
      ClusterName = ''prod'',
      ClusterServer = ''https://prod.example:6443'',
      ClusterLabels =
        [(''capi-to-argocd/cluster-secret-name'', ''prod-kubeconfig''),
         (''capi-to-argocd/cluster-namespace'', ''team-a'')],
      TakeAlongAnnotations = [],
      TakeAlongLabels =
        [(''capi-to-argocd/owned'', ''false''),
         (''taken-from-cluster-label.capi-to-argocd.capi-to-argocd/owned'', [])],
      ClusterConfig = \<lparr>TLSClientConfig = None, BearerToken = Some ''token''\<rparr>\<rparr>"

text \<open>
  A cluster in which the target of one take-along label is the provenance marker key of
  the target of another: \<^verbatim>\<open>acme/env\<close> is taken along, and so is the label
  \<^verbatim>\<open>taken-from-cluster-label.capi-to-argocd.acme/env\<close>, which the cluster holds with the
  value \<^verbatim>\<open>z\<close>. A third take-along label names a target that the cluster does not hold.
\<close>

definition collisionCluster :: clusterv1_Cluster where
  "collisionCluster =
     \<lparr>Cluster_Name = ''workload'',
      Cluster_Namespace = ''team-a'',
      Cluster_Labels =
        [(''take-along-label.capi-to-argocd.taken-from-cluster-label.capi-to-argocd.acme/env'', []),
         (''taken-from-cluster-label.capi-to-argocd.acme/env'', ''z''),
         (''take-along-label.capi-to-argocd.acme/env'', []),
         (''acme/env'', ''v''),
         (''take-along-label.capi-to-argocd.missing'', [])],
      Cluster_Annotations = []\<rparr>"

text \<open>
  A cluster with a take-along label whose target is missing, visited first, and a
  take-along label whose target is there.
\<close>

definition missingCluster :: clusterv1_Cluster where
  "missingCluster =
     \<lparr>Cluster_Name = ''workload'',
      Cluster_Namespace = ''team-a'',
      Cluster_Labels =
        [(''take-along-label.capi-to-argocd.missing'', []),
         (''take-along-label.capi-to-argocd.foo'', []),
         (''foo'', ''v''),
         (''env'', ''prod'')],
      Cluster_Annotations = []\<rparr>"

text \<open>Sample inputs of \<^verbatim>\<open>NewArgoCluster\<close>: the configuration and the source secret.\<close>

definition globalsOff :: Globals where
  "globalsOff = \<lparr>ArgoNamespace = ''argocd'', EnableNamespacedNames = False\<rparr>"

definition sourceSecret :: corev1_Secret where
  "sourceSecret =
     \<lparr>Secret_Kind = ''Secret'', Secret_APIVersion = ''v1'',
      Secret_Name = ''prod-kubeconfig'', Secret_Namespace = ''team-a'',
      Secret_Labels = [], Secret_Data = []\<rparr>"

text \<open>
  Kubeconfigs of the same source object: one with a single cluster and a single user, one
  with a second cluster and a second user after them, and one that lists none.
\<close>

definition firstCluster :: NamedCluster where
  "firstCluster =
     \<lparr>NamedCluster_Name = ''prod'',
      Cluster = \<lparr>Server = ''https://prod.example:6443'', KubeCluster_CaData = ''Q0E=''\<rparr>\<rparr>"

definition firstUser :: NamedUser where
  "firstUser =
     \<lparr>User = \<lparr>Token = Some ''token'', KubeUser_CertData = None, KubeUser_KeyData = None\<rparr>\<rparr>"

definition oneEntry :: CapiCluster where
  "oneEntry =
     \<lparr>CapiCluster_Name = ''prod'', CapiCluster_Namespace = ''team-a'',
      KubeConfig = \<lparr>Clusters = [firstCluster], Users = [firstUser]\<rparr>\<rparr>"


definition noEntries :: CapiCluster where
  "noEntries =
     \<lparr>CapiCluster_Name = ''prod'', CapiCluster_Namespace = ''team-a'',
      KubeConfig = \<lparr>Clusters = [], Users = []\<rparr>\<rparr>"

section \<open>Splitting at a separator\<close>

lemma HasPrefix_append: "HasPrefix (p @ rest) p"
  by (simp add: HasPrefix_def)

lemma Index_prefix: "Index (sep @ rest) sep = Some 0"
proof (cases "sep @ rest")
  case Nil
  then show ?thesis by simp
next
  case (Cons c cs)
  have "HasPrefix (c # cs) sep"
    using HasPrefix_append [of sep rest] Cons by simp
  with Cons show ?thesis by simp
qed

lemma Split_none: "sep \<noteq> [] \<Longrightarrow> Index s sep = None \<Longrightarrow> Split s sep = [s]"
  by (simp add: Split.simps)

lemma Split_some:
  "sep \<noteq> [] \<Longrightarrow> Index s sep = Some m \<Longrightarrow>
     Split s sep = take m s # Split (drop (m + length sep) s) sep"
  by (subst Split.simps) simp

lemma Split_prefix: "sep \<noteq> [] \<Longrightarrow> Split (sep @ rest) sep = [] # Split rest sep"
  by (simp add: Split_some [OF _ Index_prefix])

lemma Split_hd:
  "sep \<noteq> [] \<Longrightarrow>
     hd (Split s sep) = (case Index s sep of None \<Rightarrow> s | Some m \<Rightarrow> take m s)"
  by (cases "Index s sep") (simp_all add: Split_none Split_some)

lemma Split_not_Nil: "sep \<noteq> [] \<Longrightarrow> Split s sep \<noteq> []"
  by (cases "Index s sep") (simp_all add: Split_none Split_some)

lemma takeAlong_not_Nil: "clusterTakeAlongKeyFmt x \<noteq> []"
  by (simp add: clusterTakeAlongKeyFmt_def)

lemma HasPrefix_iff: "HasPrefix s p \<longleftrightarrow> (\<exists>rest. s = p @ rest)"
  unfolding HasPrefix_def
  by (metis append_eq_conv_conj append_take_drop_id length_append le_add1)

lemma HasPrefix_drop: "HasPrefix s p \<Longrightarrow> p @ drop (length p) s = s"
  by (auto simp: HasPrefix_iff)

text \<open>What extraction returns on a key that starts with the prefix.\<close>

lemma extract_prefixed:
  "extractTakeAlongMeta kind (clusterTakeAlongKeyFmt kind @ rest) =
     (let piece = (case Index rest (clusterTakeAlongKeyFmt kind) of
                     None \<Rightarrow> rest | Some m \<Rightarrow> take m rest)
      in if piece \<noteq> [] then Inr piece
         else Inl (Errorf (''invalid take-along '' @ kind @ ''. missing key after ''
                 @ [CHR 0x27] @ ''/'' @ [CHR 0x27] @ '': '' @ clusterTakeAlongKeyFmt kind @ rest)))"
proof -
  let ?P = "clusterTakeAlongKeyFmt kind"
  have ne: "?P \<noteq> []" by (rule takeAlong_not_Nil)
  obtain x xs where sp: "Split rest ?P = x # xs"
    using Split_not_Nil [OF ne, of rest] by (cases "Split rest ?P") auto
  have x: "x = (case Index rest ?P of None \<Rightarrow> rest | Some m \<Rightarrow> take m rest)"
    using Split_hd [OF ne, of rest] sp by simp
  show ?thesis
    by (simp add: extractTakeAlongMeta_def HasPrefix_append Split_prefix [OF ne] sp x Let_def)
qed

lemma extract_not_prefixed:
  "\<not> HasPrefix key (clusterTakeAlongKeyFmt kind) \<Longrightarrow> extractTakeAlongMeta kind key = Inr []"
  by (simp add: extractTakeAlongMeta_def)

lemma extract_plain:
  assumes "rest \<noteq> []" and "Index rest (clusterTakeAlongKeyFmt kind) = None"
  shows "extractTakeAlongMeta kind (clusterTakeAlongKeyFmt kind @ rest) = Inr rest"
  using assms by (simp add: extract_prefixed)

lemma extract_empty:
  "\<exists>e. extractTakeAlongMeta kind (clusterTakeAlongKeyFmt kind) = Inl e"
  using extract_prefixed [of kind "[]"] by simp

lemma scanKeys_error:
  assumes "k \<in> set ks" and "extractTakeAlongMeta kind k = Inl e0"
  shows "\<exists>k'\<in>set ks. \<exists>e. extractTakeAlongMeta kind k' = Inl e \<and> scanKeys kind ks acc = Inl e"
  using assms
proof (induction ks arbitrary: acc)
  case Nil
  then show ?case by simp
next
  case (Cons x xs)
  show ?case
  proof (cases "extractTakeAlongMeta kind x")
    case (Inl e)
    then show ?thesis by auto
  next
    case (Inr l)
    with Cons.prems have "k \<in> set xs" by auto
    from Cons.IH [OF this Cons.prems(2)] Inr show ?thesis by auto
  qed
qed

lemma extract_plainKey:
  assumes "HasPrefix k (clusterTakeAlongKeyFmt kind)" and "plainKey kind k"
  shows "extractTakeAlongMeta kind k = Inr (drop (length (clusterTakeAlongKeyFmt kind)) k)"
proof -
  let ?P = "clusterTakeAlongKeyFmt kind"
  have k: "k = ?P @ drop (length ?P) k" using HasPrefix_drop [OF assms(1)] by simp
  show ?thesis
    using assms(2) extract_plain [of "drop (length ?P) k" kind] k
    by (simp add: plainKey_def Let_def)
qed

lemma scanKeys_plain:
  assumes "\<forall>k\<in>set ks. HasPrefix k (clusterTakeAlongKeyFmt kind) \<longrightarrow> plainKey kind k"
  shows "scanKeys kind ks acc = Inr (acc @ takeAlongTargets kind ks)"
  using assms
proof (induction ks arbitrary: acc)
  case Nil
  then show ?case by (simp add: takeAlongTargets_def)
next
  case (Cons x xs)
  show ?case
  proof (cases "HasPrefix x (clusterTakeAlongKeyFmt kind)")
    case True
    with Cons.prems have pk: "plainKey kind x" by simp
    have "drop (length (clusterTakeAlongKeyFmt kind)) x \<noteq> []"
      using pk by (simp add: plainKey_def Let_def)
    with Cons True pk show ?thesis
      by (simp add: extract_plainKey takeAlongTargets_def)
  next
    case False
    with Cons show ?thesis
      by (simp add: extract_not_prefixed takeAlongTargets_def)
  qed
qed

lemma copyKeys_errors:
  "snd (copyKeys mt n ns meta ts (m, errs)) =
     errs @ map (\<lambda>t. notFoundMessage (MetaType_Name mt) t n ns)
              (filter (\<lambda>t. t \<noteq> [] \<and> map_of meta t = None) ts)"
  by (induction ts arbitrary: m errs) (auto split: option.splits)

lemma copyKeys_other:
  assumes "x \<notin> set (filter (\<lambda>t. t \<noteq> [] \<and> map_of meta t \<noteq> None) ts)"
    and "x \<notin> (\<lambda>t. TakenFrom mt @ t) ` set (filter (\<lambda>t. t \<noteq> [] \<and> map_of meta t \<noteq> None) ts)"
  shows "map_of (fst (copyKeys mt n ns meta ts (m, errs))) x = map_of m x"
  using assms
proof (induction ts arbitrary: m errs)
  case Nil
  then show ?case by simp
next
  case (Cons t ts)
  show ?case
  proof (cases "t \<noteq> [] \<and> map_of meta t \<noteq> None")
    case True
    then obtain v where v: "map_of meta t = Some v" by auto
    from Cons.prems True have ne: "x \<noteq> t" "x \<noteq> TakenFrom mt @ t" by auto
    from Cons.prems True
    have "map_of (fst (copyKeys mt n ns meta ts
            (AList.update (TakenFrom mt @ t) [] (AList.update t v m), errs))) x =
          map_of (AList.update (TakenFrom mt @ t) [] (AList.update t v m)) x"
      by (intro Cons.IH) auto
    with True v ne show ?thesis by (simp add: update_conv')
  next
    case False
    with Cons show ?thesis by (auto split: option.splits)
  qed
qed

lemma copyKeys_copied:
  assumes "x \<in> set ts" and "x \<noteq> []" and "map_of meta x = Some v"
    and "x \<notin> (\<lambda>t. TakenFrom mt @ t) ` set (filter (\<lambda>t. t \<noteq> [] \<and> map_of meta t \<noteq> None) ts)"
  shows "map_of (fst (copyKeys mt n ns meta ts (m, errs))) x = Some v"
  using assms
proof (induction ts arbitrary: m errs)
  case Nil
  then show ?case by simp
next
  case (Cons t ts)
  let ?present = "filter (\<lambda>t. t \<noteq> [] \<and> map_of meta t \<noteq> None) ts"
  from Cons.prems(4) have notmark: "x \<notin> (\<lambda>t. TakenFrom mt @ t) ` set ?present"
    by (auto split: if_splits)
  show ?case
  proof (cases "x \<in> set ts")
    case True
    have "\<And>m errs. map_of (fst (copyKeys mt n ns meta ts (m, errs))) x = Some v"
      by (rule Cons.IH [OF True Cons.prems(2,3) notmark])
    then show ?thesis by (auto split: option.splits)
  next
    case False
    with Cons.prems have xt: "x = t" by simp
    from False have "x \<notin> set ?present" by simp
    from copyKeys_other [OF this notmark]
    have other: "\<And>m errs. map_of (fst (copyKeys mt n ns meta ts (m, errs))) x = map_of m x" .
    from Cons.prems(2,3,4) xt have "x \<noteq> TakenFrom mt @ x" by auto
    with xt Cons.prems(2,3) other show ?thesis by (simp add: update_conv')
  qed
qed

lemma copyKeys_marker:
  assumes "t0 \<in> set ts" and "t0 \<noteq> []" and "map_of meta t0 = Some v"
    and "TakenFrom mt @ t0 \<notin> set (filter (\<lambda>t. t \<noteq> [] \<and> map_of meta t \<noteq> None) ts)"
  shows "map_of (fst (copyKeys mt n ns meta ts (m, errs))) (TakenFrom mt @ t0) = Some []"
  using assms
proof (induction ts arbitrary: m errs)
  case Nil
  then show ?case by simp
next
  case (Cons t ts)
  let ?present = "filter (\<lambda>t. t \<noteq> [] \<and> map_of meta t \<noteq> None) ts"
  let ?x = "TakenFrom mt @ t0"
  from Cons.prems(4) have notin: "?x \<notin> set ?present" and xt: "t \<noteq> [] \<and> map_of meta t \<noteq> None \<Longrightarrow> ?x \<noteq> t"
    by (auto split: if_splits)
  show ?case
  proof (cases "t0 \<in> set ts")
    case True
    have "\<And>m errs. map_of (fst (copyKeys mt n ns meta ts (m, errs))) ?x = Some []"
      by (rule Cons.IH [OF True Cons.prems(2,3) notin])
    then show ?thesis by (auto split: option.splits)
  next
    case False
    with Cons.prems have eq: "t0 = t" by simp
    have "?x \<notin> (\<lambda>t. TakenFrom mt @ t) ` set ?present"
      using False by auto
    from copyKeys_other [OF notin this]
    have other: "\<And>m errs. map_of (fst (copyKeys mt n ns meta ts (m, errs))) ?x = map_of m ?x" .
    from eq Cons.prems(2,3) other show ?thesis by (simp add: update_conv')
  qed
qed

lemma filter_single:
  assumes "distinct xs" and "x \<in> set xs" and "Q x" and "\<forall>y\<in>set xs. y \<noteq> x \<longrightarrow> \<not> Q y"
  shows "filter Q xs = [x]"
  using assms
proof (induction xs)
  case Nil
  then show ?case by simp
next
  case (Cons a xs)
  show ?case
  proof (cases "a = x")
    case True
    with Cons.prems have "\<forall>y\<in>set xs. \<not> Q y" by auto
    then have "filter Q xs = []" by (simp add: filter_empty_conv)
    with True Cons.prems(3) show ?thesis by simp
  next
    case False
    with Cons.prems have "\<not> Q a" and "x \<in> set xs" by auto
    with Cons show ?thesis by simp
  qed
qed

lemma GetMetaType_labels:
  "GetMetaType metaLabels =
     \<lparr>MetaType_Name = ''label'', TakeAlong = clusterTakeAlongKeyFmt ''label'',
      TakenFrom = clusterTakenFromClusterKeyFmt ''label''\<rparr>"
  by (simp add: GetMetaType_def metaLabels_def metaAnnotations_def Let_def)

lemma GetMetaType_annotations:
  "GetMetaType metaAnnotations =
     \<lparr>MetaType_Name = ''annotation'', TakeAlong = clusterTakeAlongKeyFmt ''annotation'',
      TakenFrom = clusterTakenFromClusterKeyFmt ''annotation''\<rparr>"
  by (simp add: GetMetaType_def metaAnnotations_def Let_def)

lemma selectedMeta_labels: "selectedMeta cluster metaLabels = Cluster_Labels cluster"
  by (simp add: selectedMeta_def metaLabels_def metaAnnotations_def)

lemma selectedMeta_annotations:
  "selectedMeta cluster metaAnnotations = Cluster_Annotations cluster"
  by (simp add: selectedMeta_def)

lemma TakeAlong_labels:
  "TakeAlong (GetMetaType metaLabels) = ''take-along-label.capi-to-argocd.''"
  by (simp add: GetMetaType_labels clusterTakeAlongKeyFmt_def)

lemma TakeAlong_annotations:
  "TakeAlong (GetMetaType metaAnnotations) = ''take-along-annotation.capi-to-argocd.''"
  by (simp add: GetMetaType_annotations clusterTakeAlongKeyFmt_def)

lemma TakenFrom_labels:
  "TakenFrom (GetMetaType metaLabels) = ''taken-from-cluster-label.capi-to-argocd.''"
  by (simp add: GetMetaType_labels clusterTakenFromClusterKeyFmt_def)

lemma TakenFrom_annotations:
  "TakenFrom (GetMetaType metaAnnotations) = ''taken-from-cluster-annotation.capi-to-argocd.''"
  by (simp add: GetMetaType_annotations clusterTakenFromClusterKeyFmt_def)

lemma buildTakeAlongArray_selected:
  assumes "metaType = metaAnnotations \<or> metaType = metaLabels"
  shows "buildTakeAlongArray cluster metaType =
     (let metaName = GetMetaType metaType; meta = selectedMeta cluster metaType
      in case scanKeys (MetaType_Name metaName) (map fst meta) [] of
           Inl err \<Rightarrow> ([], [Error err])
         | Inr takeAlongArray \<Rightarrow>
             copyKeys metaName (Cluster_Name cluster) (Cluster_Namespace cluster) meta
               takeAlongArray ([], []))"
proof -
  have nil: "\<And>mt n ns meta. copyKeys mt n ns meta [] ([], []) = ([], [])" by simp
  show ?thesis
    using assms
    by (auto simp: buildTakeAlongArray_def selectedMeta_def Let_def metaLabels_def
          metaAnnotations_def split: sum.splits)
qed

lemma TakeAlong_GetMetaType:
  "TakeAlong (GetMetaType metaType) = clusterTakeAlongKeyFmt (MetaType_Name (GetMetaType metaType))"
  by (simp add: GetMetaType_def Let_def)

lemma takenFrom_not_Nil: "clusterTakenFromClusterKeyFmt x \<noteq> []"
  by (simp add: clusterTakenFromClusterKeyFmt_def)

lemma TakenFrom_GetMetaType:
  "TakenFrom (GetMetaType metaType) =
     clusterTakenFromClusterKeyFmt (MetaType_Name (GetMetaType metaType))"
  by (simp add: GetMetaType_def Let_def)

lemma plainKey_append:
  "plainKey kind (clusterTakeAlongKeyFmt kind @ t) \<longleftrightarrow>
     t \<noteq> [] \<and> Index t (clusterTakeAlongKeyFmt kind) = None"
  by (simp add: plainKey_def)

lemma collect_single:
  assumes mt: "metaType = metaAnnotations \<or> metaType = metaLabels"
    and dist: "distinct (map fst (selectedMeta cluster metaType))"
    and key: "TakeAlong (GetMetaType metaType) @ t \<in> fst ` set (selectedMeta cluster metaType)"
    and plain: "t \<noteq> []" "Index t (TakeAlong (GetMetaType metaType)) = None"
    and val: "map_of (selectedMeta cluster metaType) t = Some v"
    and others: "\<forall>k \<in> fst ` set (selectedMeta cluster metaType).
                   k \<noteq> TakeAlong (GetMetaType metaType) @ t \<longrightarrow>
                   \<not> HasPrefix k (TakeAlong (GetMetaType metaType))"
  shows "buildTakeAlongArray cluster metaType =
           ([(t, v), (TakenFrom (GetMetaType metaType) @ t, [])], [])"
proof -
  let ?mt = "GetMetaType metaType"
  let ?kind = "MetaType_Name ?mt"
  let ?P = "clusterTakeAlongKeyFmt ?kind"
  let ?meta = "selectedMeta cluster metaType"
  let ?keys = "map fst ?meta"
  have P: "TakeAlong ?mt = ?P" by (rule TakeAlong_GetMetaType)
  have pk: "plainKey ?kind (?P @ t)"
    using plain by (simp add: plainKey_append P)
  have "\<forall>k\<in>set ?keys. HasPrefix k ?P \<longrightarrow> plainKey ?kind k"
  proof (intro ballI impI)
    fix k
    assume "k \<in> set ?keys" and "HasPrefix k ?P"
    with others have "k = ?P @ t" unfolding P by auto
    with pk show "plainKey ?kind k" by simp
  qed
  then have scan: "scanKeys ?kind ?keys [] = Inr (takeAlongTargets ?kind ?keys)"
    using scanKeys_plain [of ?keys ?kind "[]"] by simp
  have "filter (\<lambda>k. HasPrefix k ?P) ?keys = [?P @ t]"
  proof (rule filter_single)
    show "distinct ?keys" by (rule dist)
    show "?P @ t \<in> set ?keys" using key by (simp add: P)
    show "HasPrefix (?P @ t) ?P" by (rule HasPrefix_append)
    show "\<forall>y\<in>set ?keys. y \<noteq> ?P @ t \<longrightarrow> \<not> HasPrefix y ?P"
      using others by (simp add: P)
  qed
  then have targets: "takeAlongTargets ?kind ?keys = [t]"
    by (simp add: takeAlongTargets_def)
  have neq: "t \<noteq> TakenFrom ?mt @ t"
    using takenFrom_not_Nil [of ?kind] by (simp add: TakenFrom_GetMetaType)
  show ?thesis
    using val plain(1) neq
    by (simp add: buildTakeAlongArray_selected [OF mt] Let_def scan targets)
qed

section \<open>The collector\<close>

text \<open>
  C1. Let the kind be label or annotation, and let the metadata map of that kind hold
  the malformed key, the take-along prefix with nothing after it. Then, in whatever
  order the keys are visited, the scan stops at a key whose extraction fails, and the
  collector returns the empty map (no entry of any other take-along key) and exactly one
  message, the text of that extraction error.
\<close>

theorem collect_malformed_aborts:
  assumes "metaType = metaAnnotations \<or> metaType = metaLabels"
    and "TakeAlong (GetMetaType metaType) \<in> fst ` set (selectedMeta cluster metaType)"
  shows "\<exists>k \<in> fst ` set (selectedMeta cluster metaType). \<exists>err.
           extractTakeAlongMeta (MetaType_Name (GetMetaType metaType)) k = Inl err \<and>
           buildTakeAlongArray cluster metaType = ([], [Error err])"
proof -
  let ?kind = "MetaType_Name (GetMetaType metaType)"
  let ?keys = "map fst (selectedMeta cluster metaType)"
  from assms(2) have mem: "clusterTakeAlongKeyFmt ?kind \<in> set ?keys"
    by (simp add: TakeAlong_GetMetaType)
  obtain e0 where "extractTakeAlongMeta ?kind (clusterTakeAlongKeyFmt ?kind) = Inl e0"
    using extract_empty by blast
  from scanKeys_error [OF mem this, of "[]"]
  obtain k err where k: "k \<in> set ?keys"
    and err: "extractTakeAlongMeta ?kind k = Inl err"
    and scan: "scanKeys ?kind ?keys [] = Inl err"
    by blast
  have "buildTakeAlongArray cluster metaType = ([], [Error err])"
    by (simp add: buildTakeAlongArray_selected [OF assms(1)] Let_def scan)
  with k err show ?thesis by auto
qed

theorem collect_malformed_aborts_witness:
  "TakeAlong (GetMetaType metaLabels) \<in> fst ` set (selectedMeta malformedCluster metaLabels) \<and>
   fst (buildTakeAlongArray malformedCluster metaLabels) = [] \<and>
   length (snd (buildTakeAlongArray malformedCluster metaLabels)) = 1"
proof -
  have key: "TakeAlong (GetMetaType metaLabels)
               \<in> fst ` set (selectedMeta malformedCluster metaLabels)"
    by (simp add: TakeAlong_labels selectedMeta_labels malformedCluster_def)
  from collect_malformed_aborts [OF _ key]
  obtain err where "buildTakeAlongArray malformedCluster metaLabels = ([], [Error err])"
    by auto
  with key show ?thesis by simp
qed

text \<open>
  C2. Let the labels of the cluster (a map, so with distinct keys) hold the key
  \<^verbatim>\<open>take-along-label.capi-to-argocd.foo\<close>, let them map \<^verbatim>\<open>foo\<close> to \<open>v\<close>, and let no other
  key of them start with the take-along prefix. Then the collector, for the kind label,
  returns the map of exactly two entries, \<^verbatim>\<open>foo\<close> to \<open>v\<close> and
  \<^verbatim>\<open>taken-from-cluster-label.capi-to-argocd.foo\<close> to the empty string, and no warning.
\<close>

theorem collect_single_label:
  assumes "distinct (map fst (Cluster_Labels cluster))"
    and "''take-along-label.capi-to-argocd.foo'' \<in> fst ` set (Cluster_Labels cluster)"
    and "map_of (Cluster_Labels cluster) ''foo'' = Some v"
    and "\<forall>k \<in> fst ` set (Cluster_Labels cluster).
           k \<noteq> ''take-along-label.capi-to-argocd.foo'' \<longrightarrow>
           \<not> HasPrefix k ''take-along-label.capi-to-argocd.''"
  shows "map_of (fst (buildTakeAlongArray cluster metaLabels)) =
           [''foo'' \<mapsto> v, ''taken-from-cluster-label.capi-to-argocd.foo'' \<mapsto> []] \<and>
         snd (buildTakeAlongArray cluster metaLabels) = []"
proof -
  note P = TakeAlong_labels and M = TakenFrom_labels and sel = selectedMeta_labels
  have idx: "Index ''foo'' (TakeAlong (GetMetaType metaLabels)) = None"
    by (simp add: P HasPrefix_def)
  have "buildTakeAlongArray cluster metaLabels =
          ([(''foo'', v), (TakenFrom (GetMetaType metaLabels) @ ''foo'', [])], [])"
    using assms idx by (intro collect_single) (simp_all add: sel P)
  then show ?thesis by (auto simp: M fun_eq_iff)
qed

theorem collect_single_label_witness:
  "map_of (fst (buildTakeAlongArray fooCluster metaLabels)) =
     [''foo'' \<mapsto> ''v'', ''taken-from-cluster-label.capi-to-argocd.foo'' \<mapsto> []] \<and>
   snd (buildTakeAlongArray fooCluster metaLabels) = []"
  by (rule collect_single_label) (simp_all add: fooCluster_def HasPrefix_def)

section \<open>The name builders\<close>

lemma HasSuffix_append: "HasSuffix (base @ suf) suf"
  by (simp add: HasSuffix_def)

lemma HasSuffix_iff: "HasSuffix s suf \<longleftrightarrow> (\<exists>base. s = base @ suf)"
proof
  assume "HasSuffix s suf"
  then have "s = take (length s - length suf) s @ suf"
    by (metis HasSuffix_def append_take_drop_id)
  then show "\<exists>base. s = base @ suf" ..
next
  assume "\<exists>base. s = base @ suf"
  then show "HasSuffix s suf" by (auto simp: HasSuffix_append)
qed

lemma TrimSuffix_append: "TrimSuffix (base @ suf) suf = base"
  by (simp add: TrimSuffix_def HasSuffix_append)

lemma TrimSuffix_other: "\<forall>base. s \<noteq> base @ suf \<Longrightarrow> TrimSuffix s suf = s"
  by (simp add: TrimSuffix_def HasSuffix_iff)

text \<open>
  C7. \<^verbatim>\<open>BuildClusterName\<close> returns the raw name unchanged when the namespacing toggle is
  off, and the namespace, a hyphen and the raw name when it is on; for the raw name
  \<^verbatim>\<open>prod\<close> and the namespace \<^verbatim>\<open>team-a\<close> that is \<^verbatim>\<open>prod\<close> and \<^verbatim>\<open>team-a-prod\<close>.
\<close>

theorem BuildClusterName_toggle:
  "BuildClusterName g rawName namespace =
     (if EnableNamespacedNames g then namespace @ ''-'' @ rawName else rawName) \<and>
   BuildClusterName \<lparr>ArgoNamespace = argo, EnableNamespacedNames = False\<rparr> ''prod'' ''team-a''
     = ''prod'' \<and>
   BuildClusterName \<lparr>ArgoNamespace = argo, EnableNamespacedNames = True\<rparr> ''prod'' ''team-a''
     = ''team-a-prod''"
  by (simp add: BuildClusterName_def)

text \<open>
  C6. For a source secret name that ends in \<^verbatim>\<open>-kubeconfig\<close>, that is \<open>base\<close> followed by
  the suffix, \<^verbatim>\<open>BuildNamespacedName\<close> returns the name \<^verbatim>\<open>cluster-\<close> followed by
  \<^verbatim>\<open>BuildClusterName\<close> of \<open>base\<close>: one suffix is stripped. For a name that does not end in
  the suffix nothing is stripped. In both cases the namespace of the result is the
  configured target namespace and the source namespace enters the name only, and only
  when namespacing is on.
\<close>

theorem BuildNamespacedName_strips_suffix:
  "BuildNamespacedName g (base @ ''-kubeconfig'') ns =
     \<lparr>NamespacedName_Name = ''cluster-'' @ BuildClusterName g base ns,
      NamespacedName_Namespace = ArgoNamespace g\<rparr> \<and>
   NamespacedName_Name (BuildNamespacedName g (base @ ''-kubeconfig'') ns) =
     (if EnableNamespacedNames g then ''cluster-'' @ ns @ ''-'' @ base
      else ''cluster-'' @ base) \<and>
   (\<not> HasSuffix s ''-kubeconfig'' \<longrightarrow>
      BuildNamespacedName g s ns =
        \<lparr>NamespacedName_Name = ''cluster-'' @ BuildClusterName g s ns,
         NamespacedName_Namespace = ArgoNamespace g\<rparr> \<and>
      NamespacedName_Name (BuildNamespacedName g s ns) =
        (if EnableNamespacedNames g then ''cluster-'' @ ns @ ''-'' @ s
         else ''cluster-'' @ s))"
proof (intro conjI impI)
  show 1: "BuildNamespacedName g (base @ ''-kubeconfig'') ns =
        \<lparr>NamespacedName_Name = ''cluster-'' @ BuildClusterName g base ns,
         NamespacedName_Namespace = ArgoNamespace g\<rparr>"
    unfolding BuildNamespacedName_def TrimSuffix_append by (rule refl)
  show "NamespacedName_Name (BuildNamespacedName g (base @ ''-kubeconfig'') ns) =
        (if EnableNamespacedNames g then ''cluster-'' @ ns @ ''-'' @ base
         else ''cluster-'' @ base)"
    unfolding 1 by (simp add: BuildClusterName_def)
next
  assume none: "\<not> HasSuffix s ''-kubeconfig''"
  then have trim: "TrimSuffix s ''-kubeconfig'' = s"
    unfolding TrimSuffix_def by (rule if_not_P)
  show 2: "BuildNamespacedName g s ns =
        \<lparr>NamespacedName_Name = ''cluster-'' @ BuildClusterName g s ns,
         NamespacedName_Namespace = ArgoNamespace g\<rparr>"
    unfolding BuildNamespacedName_def trim by (rule refl)
  show "NamespacedName_Name (BuildNamespacedName g s ns) =
        (if EnableNamespacedNames g then ''cluster-'' @ ns @ ''-'' @ s
         else ''cluster-'' @ s)"
    unfolding 2 by (simp add: BuildClusterName_def)
qed

theorem BuildNamespacedName_strips_suffix_witness:
  "\<not> HasSuffix ''prod'' ''-kubeconfig'' \<and>
   BuildNamespacedName \<lparr>ArgoNamespace = ''argocd'', EnableNamespacedNames = False\<rparr>
     (''prod'' @ ''-kubeconfig'') ''team-a'' =
     \<lparr>NamespacedName_Name = ''cluster-prod'', NamespacedName_Namespace = ''argocd''\<rparr> \<and>
   BuildNamespacedName \<lparr>ArgoNamespace = ''argocd'', EnableNamespacedNames = False\<rparr>
     ''prod'' ''team-a'' =
     \<lparr>NamespacedName_Name = ''cluster-prod'', NamespacedName_Namespace = ''argocd''\<rparr>"
proof -
  let ?g = "\<lparr>ArgoNamespace = ''argocd'', EnableNamespacedNames = False\<rparr>"
  note spec = BuildNamespacedName_strips_suffix [of ?g "''prod''" "''team-a''" "''prod''"]
  have none: "\<not> HasSuffix ''prod'' ''-kubeconfig''"
    by (simp add: HasSuffix_def)
  have name: "BuildClusterName ?g ''prod'' ''team-a'' = ''prod''"
    by (simp add: BuildClusterName_def)
  from spec have 1: "BuildNamespacedName ?g (''prod'' @ ''-kubeconfig'') ''team-a'' =
      \<lparr>NamespacedName_Name = ''cluster-'' @ BuildClusterName ?g ''prod'' ''team-a'',
       NamespacedName_Namespace = ArgoNamespace ?g\<rparr>"
    by (rule conjunct1)
  from spec none have 2: "BuildNamespacedName ?g ''prod'' ''team-a'' =
      \<lparr>NamespacedName_Name = ''cluster-'' @ BuildClusterName ?g ''prod'' ''team-a'',
       NamespacedName_Namespace = ArgoNamespace ?g\<rparr>"
    by blast
  show ?thesis
    unfolding 1 2 name using none by simp
qed

section \<open>Properties of the generated secret\<close>

lemma omitempty_names:
  "map fst (omitempty name p enc) = (if p = None then [] else [name])"
  by (cases p) (simp_all add: omitempty_def)

lemma assignAll_map_of:
  "distinct (map fst m) \<Longrightarrow> map_of (assignAll mergedLabels m) = map_of mergedLabels ++ map_of m"
proof (induction m arbitrary: mergedLabels)
  case Nil
  then show ?case by simp
next
  case (Cons kv rest)
  obtain k v where kv: "kv = (k, v)" by (cases kv)
  from Cons.prems kv have notin: "k \<notin> dom (map_of rest)" and dist: "distinct (map fst rest)"
    by (auto simp: dom_map_of_conv_image_fst)
  have "map_of (assignAll mergedLabels (kv # rest)) =
          map_of (assignAll (AList.update k v mergedLabels) rest)"
    by (simp add: kv)
  also have "\<dots> = map_of (AList.update k v mergedLabels) ++ map_of rest"
    by (rule Cons.IH [OF dist])
  also have "\<dots> = (map_of mergedLabels)(k \<mapsto> v) ++ map_of rest"
    by (simp only: update_conv')
  also have "\<dots> = (map_of mergedLabels ++ map_of rest)(k \<mapsto> v)"
    by (rule map_add_upd_left [OF notin])
  also have "\<dots> = map_of mergedLabels ++ map_of (kv # rest)"
    by (simp only: kv map_of.simps fst_conv snd_conv map_add_upd)
  finally show ?case .
qed

lemma ConvertToSecret_Inr:
  "ConvertToSecret quote a =
     Inr \<lparr>Secret_Kind = ''Secret'',
          Secret_APIVersion = ''v1'',
          Secret_Name = NamespacedName_Name (NamespacedName a),
          Secret_Namespace = NamespacedName_Namespace (NamespacedName a),
          Secret_Labels =
            assignAll (assignAll (assignAll [] GetArgoCommonLabels) (ClusterLabels a))
              (TakeAlongLabels a),
          Secret_Data =
            [(''name'', ClusterName a), (''server'', ClusterServer a),
             (''config'', encodeValue quote (marshalArgoConfig (ClusterConfig a)))]\<rparr>"
  by (simp add: ConvertToSecret_def json_Marshal_def)

lemma distinct_GetArgoCommonLabels: "distinct (map fst GetArgoCommonLabels)"
  by (simp add: GetArgoCommonLabels_def)

text \<open>
  C8. The JSON object written for an \<^verbatim>\<open>ArgoConfig\<close> has a field exactly for each pointer
  that is not nil, and so has the object of its TLS block. A config with only the bearer
  token set is written as the object with the one field \<^verbatim>\<open>bearerToken\<close>, without a field
  \<^verbatim>\<open>tlsClientConfig\<close>; a config with nothing set is written as \<^verbatim>\<open>{}\<close>.
\<close>

theorem Marshal_omits_absent_fields:
  "fieldNames (marshalArgoConfig c) =
     (if TLSClientConfig c = None then [] else [''tlsClientConfig''])
       @ (if BearerToken c = None then [] else [''bearerToken'']) \<and>
   fieldNames (marshalArgoTLS t) =
     (if CaData t = None then [] else [''caData''])
       @ (if CertData t = None then [] else [''certData''])
       @ (if KeyData t = None then [] else [''keyData'']) \<and>
   marshalArgoConfig \<lparr>TLSClientConfig = None, BearerToken = Some token\<rparr> =
     JObject [(''bearerToken'', JString token)] \<and>
   json_Marshal quote \<lparr>TLSClientConfig = None, BearerToken = Some token\<rparr> =
     Inr (''{'' @ [CHR 0x22] @ ''bearerToken'' @ [CHR 0x22] @ '':'' @ quote token @ ''}'') \<and>
   json_Marshal quote \<lparr>TLSClientConfig = None, BearerToken = None\<rparr> = Inr ''{}''"
proof (intro conjI)
  show "fieldNames (marshalArgoConfig c) =
     (if TLSClientConfig c = None then [] else [''tlsClientConfig''])
       @ (if BearerToken c = None then [] else [''bearerToken''])"
    by (simp add: marshalArgoConfig_def omitempty_names)
  show "fieldNames (marshalArgoTLS t) =
     (if CaData t = None then [] else [''caData''])
       @ (if CertData t = None then [] else [''certData''])
       @ (if KeyData t = None then [] else [''keyData''])"
    by (simp add: marshalArgoTLS_def omitempty_names)
  show "marshalArgoConfig \<lparr>TLSClientConfig = None, BearerToken = Some token\<rparr> =
     JObject [(''bearerToken'', JString token)]"
    by (simp add: marshalArgoConfig_def omitempty_def)
  show "json_Marshal quote \<lparr>TLSClientConfig = None, BearerToken = Some token\<rparr> =
     Inr (''{'' @ [CHR 0x22] @ ''bearerToken'' @ [CHR 0x22] @ '':'' @ quote token @ ''}'')"
    by (simp add: json_Marshal_def marshalArgoConfig_def omitempty_def)
  show "json_Marshal quote \<lparr>TLSClientConfig = None, BearerToken = None\<rparr> = Inr ''{}''"
    by (simp add: json_Marshal_def marshalArgoConfig_def omitempty_def)
qed

text \<open>
  C5. For every Argo cluster (its label maps have distinct keys, as maps do)
  \<^verbatim>\<open>ConvertToSecret\<close> returns a secret, and the labels of the secret are the static common
  labels, overridden by the cluster labels, overridden by the take-along labels. So a
  take-along label whose key is the key of a static common label appears in the secret
  with the take-along value.
\<close>

theorem ConvertToSecret_label_layers:
  assumes "distinct (map fst (ClusterLabels a))" and "distinct (map fst (TakeAlongLabels a))"
  shows "\<exists>secret. ConvertToSecret quote a = Inr secret \<and>
           map_of (Secret_Labels secret) =
             map_of GetArgoCommonLabels ++ map_of (ClusterLabels a) ++ map_of (TakeAlongLabels a) \<and>
           (\<forall>k v. k \<in> fst ` set GetArgoCommonLabels \<and> map_of (TakeAlongLabels a) k = Some v
                  \<longrightarrow> map_of (Secret_Labels secret) k = Some v)"
proof -
  let ?merged = "assignAll (assignAll (assignAll [] GetArgoCommonLabels) (ClusterLabels a))
                   (TakeAlongLabels a)"
  have "map_of ?merged =
          map_of GetArgoCommonLabels ++ map_of (ClusterLabels a) ++ map_of (TakeAlongLabels a)"
    by (simp add: assignAll_map_of assms distinct_GetArgoCommonLabels)
  then show ?thesis
    by (simp add: ConvertToSecret_Inr)
qed

theorem ConvertToSecret_label_layers_witness:
  "\<exists>secret. ConvertToSecret quoteAscii collidingArgoCluster = Inr secret \<and>
     map_of GetArgoCommonLabels ''capi-to-argocd/owned'' = Some ''true'' \<and>
     map_of (Secret_Labels secret) ''capi-to-argocd/owned'' = Some ''false'' \<and>
     map_of (Secret_Labels secret) ''argocd.argoproj.io/secret-type'' = Some ''cluster'' \<and>
     map_of (Secret_Labels secret) ''capi-to-argocd/cluster-namespace'' = Some ''team-a''"
proof -
  have d1: "distinct (map fst (ClusterLabels collidingArgoCluster))"
    by (simp add: collidingArgoCluster_def)
  have d2: "distinct (map fst (TakeAlongLabels collidingArgoCluster))"
    by (simp add: collidingArgoCluster_def)
  from ConvertToSecret_label_layers [OF d1 d2, of quoteAscii]
  obtain secret where conv: "ConvertToSecret quoteAscii collidingArgoCluster = Inr secret"
    and labels: "map_of (Secret_Labels secret) =
      map_of GetArgoCommonLabels ++ map_of (ClusterLabels collidingArgoCluster)
        ++ map_of (TakeAlongLabels collidingArgoCluster)"
    by blast
  have "map_of GetArgoCommonLabels ''capi-to-argocd/owned'' = Some ''true''"
    by (simp add: GetArgoCommonLabels_def)
  moreover have "map_of (Secret_Labels secret) ''capi-to-argocd/owned'' = Some ''false''"
    unfolding labels by (simp add: collidingArgoCluster_def)
  moreover have "map_of (Secret_Labels secret) ''argocd.argoproj.io/secret-type'' = Some ''cluster''"
    unfolding labels by (simp add: collidingArgoCluster_def GetArgoCommonLabels_def map_add_def)
  moreover have "map_of (Secret_Labels secret) ''capi-to-argocd/cluster-namespace'' = Some ''team-a''"
    unfolding labels by (simp add: collidingArgoCluster_def GetArgoCommonLabels_def map_add_def)
  ultimately show ?thesis using conv by blast
qed

section \<open>Extraction and collection at the edges\<close>

lemma targets_distinct:
  assumes "distinct ks"
  shows "distinct (takeAlongTargets kind ks)"
proof -
  let ?P = "clusterTakeAlongKeyFmt kind"
  have "inj_on (drop (length ?P)) {k. HasPrefix k ?P}"
  proof (rule inj_onI)
    fix x y
    assume hx: "x \<in> {k. HasPrefix k ?P}" and hy: "y \<in> {k. HasPrefix k ?P}"
      and eq: "drop (length ?P) x = drop (length ?P) y"
    from hx have "x = ?P @ drop (length ?P) x" by (simp add: HasPrefix_drop)
    also have "\<dots> = ?P @ drop (length ?P) y" by (simp only: eq)
    also from hy have "\<dots> = y" by (simp add: HasPrefix_drop)
    finally show "x = y" .
  qed
  then have "inj_on (drop (length ?P)) (set (filter (\<lambda>k. HasPrefix k ?P) ks))"
    by (rule inj_on_subset) auto
  with assms show ?thesis
    by (simp add: takeAlongTargets_def distinct_map)
qed

lemma targets_not_Nil:
  assumes "\<forall>k\<in>set ks. HasPrefix k (clusterTakeAlongKeyFmt kind) \<longrightarrow> plainKey kind k"
    and "t \<in> set (takeAlongTargets kind ks)"
  shows "t \<noteq> []"
  using assms by (auto simp: takeAlongTargets_def plainKey_def Let_def)

lemma notFoundMessage_inj:
  "notFoundMessage kind t name ns = notFoundMessage kind t' name ns \<Longrightarrow> t = t'"
  by (simp add: notFoundMessage_def)

lemma count_list_map_inj:
  assumes "\<And>y. f y = f x \<Longrightarrow> y = x"
  shows "count_list (map f xs) (f x) = count_list xs x"
  using assms by (induction xs) auto

lemma count_list_distinct: "distinct xs \<Longrightarrow> x \<in> set xs \<Longrightarrow> count_list xs x = 1"
  by (induction xs) (auto simp: count_list_0_iff)

lemma Name_labels: "MetaType_Name (GetMetaType metaLabels) = ''label''"
  by (simp add: GetMetaType_labels)

lemma Name_annotations: "MetaType_Name (GetMetaType metaAnnotations) = ''annotation''"
  by (simp add: GetMetaType_annotations)

lemma buildTakeAlongArray_labels_plain:
  assumes "\<forall>k\<in>fst ` set (Cluster_Labels cluster).
             HasPrefix k ''take-along-label.capi-to-argocd.'' \<longrightarrow> plainKey ''label'' k"
  shows "buildTakeAlongArray cluster metaLabels =
           copyKeys (GetMetaType metaLabels) (Cluster_Name cluster) (Cluster_Namespace cluster)
             (Cluster_Labels cluster)
             (takeAlongTargets ''label'' (map fst (Cluster_Labels cluster))) ([], [])"
proof -
  have P: "clusterTakeAlongKeyFmt ''label'' = ''take-along-label.capi-to-argocd.''"
    by (simp add: clusterTakeAlongKeyFmt_def)
  have "\<forall>k\<in>set (map fst (Cluster_Labels cluster)).
          HasPrefix k (clusterTakeAlongKeyFmt ''label'') \<longrightarrow> plainKey ''label'' k"
    using assms by (simp add: P)
  from scanKeys_plain [OF this, of "[]"] show ?thesis
    by (simp add: buildTakeAlongArray_selected [of metaLabels] Let_def Name_labels
          selectedMeta_labels)
qed

lemma collisionCluster_plain:
  "\<forall>k\<in>fst ` set (Cluster_Labels collisionCluster).
     HasPrefix k ''take-along-label.capi-to-argocd.'' \<longrightarrow> plainKey ''label'' k"
  by (simp add: collisionCluster_def plainKey_def clusterTakeAlongKeyFmt_def HasPrefix_def)

lemma collisionCluster_targets:
  "takeAlongTargets ''label'' (map fst (Cluster_Labels collisionCluster)) =
     [''taken-from-cluster-label.capi-to-argocd.acme/env'', ''acme/env'', ''missing'']"
  by (simp add: collisionCluster_def takeAlongTargets_def clusterTakeAlongKeyFmt_def HasPrefix_def)

lemma collisionCluster_result:
  "buildTakeAlongArray collisionCluster metaLabels =
     ([(''taken-from-cluster-label.capi-to-argocd.acme/env'', []),
       (''taken-from-cluster-label.capi-to-argocd.taken-from-cluster-label.capi-to-argocd.acme/env'', []),
       (''acme/env'', ''v'')],
      [notFoundMessage ''label'' ''missing'' ''workload'' ''team-a''])"
  unfolding buildTakeAlongArray_labels_plain [OF collisionCluster_plain] collisionCluster_targets
  by (simp add: collisionCluster_def GetMetaType_labels clusterTakenFromClusterKeyFmt_def)

lemma collisionCluster_rev_result:
  "buildTakeAlongArray
     (collisionCluster\<lparr>Cluster_Labels := rev (Cluster_Labels collisionCluster)\<rparr>) metaLabels =
     ([(''acme/env'', ''v''),
       (''taken-from-cluster-label.capi-to-argocd.acme/env'', ''z''),
       (''taken-from-cluster-label.capi-to-argocd.taken-from-cluster-label.capi-to-argocd.acme/env'', [])],
      [notFoundMessage ''label'' ''missing'' ''workload'' ''team-a''])"
proof -
  let ?c = "collisionCluster\<lparr>Cluster_Labels := rev (Cluster_Labels collisionCluster)\<rparr>"
  have plain: "\<forall>k\<in>fst ` set (Cluster_Labels ?c).
     HasPrefix k ''take-along-label.capi-to-argocd.'' \<longrightarrow> plainKey ''label'' k"
    using collisionCluster_plain by simp
  have targets: "takeAlongTargets ''label'' (map fst (Cluster_Labels ?c)) =
     [''missing'', ''acme/env'', ''taken-from-cluster-label.capi-to-argocd.acme/env'']"
    by (simp add: collisionCluster_def takeAlongTargets_def clusterTakeAlongKeyFmt_def HasPrefix_def)
  show ?thesis
    unfolding buildTakeAlongArray_labels_plain [OF plain] targets
    by (simp add: collisionCluster_def GetMetaType_labels clusterTakenFromClusterKeyFmt_def)
qed

text \<open>
  C3. The claim is that a key which starts with the take-along prefix and has a non-empty
  remainder yields that remainder, also when the remainder holds the prefix again. The
  code takes the second piece of \<^verbatim>\<open>strings.Split(key, takeAlong)\<close>, which ends where the
  prefix occurs next. For the label key
  \<^verbatim>\<open>take-along-label.capi-to-argocd.x/take-along-label.capi-to-argocd.b\<close> it returns
  \<^verbatim>\<open>x/\<close>, not the remainder \<^verbatim>\<open>x/take-along-label.capi-to-argocd.b\<close>; for the key that is
  the prefix twice and then \<^verbatim>\<open>b\<close> the second piece is empty and the code reports the
  key as invalid, although its remainder is not empty. The lemma \<open>extract_plain\<close> above is
  what holds: the remainder is returned when it does not hold the prefix.
\<close>

theorem extract_cuts_at_repeated_prefix:
  "extractTakeAlongMeta ''label''
     ''take-along-label.capi-to-argocd.x/take-along-label.capi-to-argocd.b'' = Inr ''x/'' \<and>
   extractTakeAlongMeta ''label''
     ''take-along-label.capi-to-argocd.take-along-label.capi-to-argocd.b'' =
     Inl (Errorf (''invalid take-along label. missing key after '' @ [CHR 0x27] @ ''/''
            @ [CHR 0x27] @ '': take-along-label.capi-to-argocd.take-along-label.capi-to-argocd.b''))"
proof
  have P: "clusterTakeAlongKeyFmt ''label'' = ''take-along-label.capi-to-argocd.''"
    by (simp add: clusterTakeAlongKeyFmt_def)
  show "extractTakeAlongMeta ''label''
     ''take-along-label.capi-to-argocd.x/take-along-label.capi-to-argocd.b'' = Inr ''x/''"
    using extract_prefixed [of "''label''" "''x/take-along-label.capi-to-argocd.b''"]
    by (simp add: P HasPrefix_def)
  show "extractTakeAlongMeta ''label''
     ''take-along-label.capi-to-argocd.take-along-label.capi-to-argocd.b'' =
     Inl (Errorf (''invalid take-along label. missing key after '' @ [CHR 0x27] @ ''/''
            @ [CHR 0x27] @ '': take-along-label.capi-to-argocd.take-along-label.capi-to-argocd.b''))"
    using extract_prefixed [of "''label''" "''take-along-label.capi-to-argocd.b''"]
    by (simp add: P HasPrefix_def)
qed

text \<open>
  C4, as the code has it. Let the kind be label or annotation and let the metadata map
  of that kind have distinct keys. Let every key that starts with the take-along prefix
  have a non-empty remainder that does not hold the prefix again, and let no take-along
  target be the provenance marker key of a take-along target that the map holds. If the
  map lacks the target \<open>t0\<close> of one of its take-along keys, then the returned map has no
  entry for \<open>t0\<close>; the warnings are, in the order of the scan, one message for each
  take-along key whose target the map lacks, so exactly one of them is the message for
  \<open>t0\<close>; and for every take-along key whose target the map holds, the returned map holds
  the target with its value and the provenance marker key of the target with the empty
  string.
\<close>

theorem collect_skips_missing_target:
  assumes kind: "metaType = metaAnnotations \<or> metaType = metaLabels"
    and dist: "distinct (map fst (selectedMeta cluster metaType))"
    and plain: "\<forall>k\<in>fst ` set (selectedMeta cluster metaType).
                  HasPrefix k (TakeAlong (GetMetaType metaType)) \<longrightarrow>
                  plainKey (MetaType_Name (GetMetaType metaType)) k"
    and apart: "\<forall>t\<in>set (takeAlongTargets (MetaType_Name (GetMetaType metaType))
                            (map fst (selectedMeta cluster metaType))).
                \<forall>t'\<in>set (takeAlongTargets (MetaType_Name (GetMetaType metaType))
                            (map fst (selectedMeta cluster metaType))).
                  map_of (selectedMeta cluster metaType) t' \<noteq> None \<longrightarrow>
                  t \<noteq> TakenFrom (GetMetaType metaType) @ t'"
    and missing: "t0 \<in> set (takeAlongTargets (MetaType_Name (GetMetaType metaType))
                            (map fst (selectedMeta cluster metaType)))"
                 "map_of (selectedMeta cluster metaType) t0 = None"
  shows "map_of (fst (buildTakeAlongArray cluster metaType)) t0 = None \<and>
         snd (buildTakeAlongArray cluster metaType) =
           map (\<lambda>t. notFoundMessage (MetaType_Name (GetMetaType metaType)) t
                      (Cluster_Name cluster) (Cluster_Namespace cluster))
             (filter (\<lambda>t. map_of (selectedMeta cluster metaType) t = None)
                (takeAlongTargets (MetaType_Name (GetMetaType metaType))
                   (map fst (selectedMeta cluster metaType)))) \<and>
         count_list (snd (buildTakeAlongArray cluster metaType))
           (notFoundMessage (MetaType_Name (GetMetaType metaType)) t0
              (Cluster_Name cluster) (Cluster_Namespace cluster)) = 1 \<and>
         (\<forall>t\<in>set (takeAlongTargets (MetaType_Name (GetMetaType metaType))
                     (map fst (selectedMeta cluster metaType))).
            map_of (selectedMeta cluster metaType) t \<noteq> None \<longrightarrow>
            map_of (fst (buildTakeAlongArray cluster metaType)) t =
              map_of (selectedMeta cluster metaType) t \<and>
            map_of (fst (buildTakeAlongArray cluster metaType))
              (TakenFrom (GetMetaType metaType) @ t) = Some [])"
proof -
  let ?mt = "GetMetaType metaType"
  let ?kind = "MetaType_Name ?mt"
  let ?meta = "selectedMeta cluster metaType"
  let ?keys = "map fst ?meta"
  let ?targets = "takeAlongTargets ?kind ?keys"
  let ?n = "Cluster_Name cluster"
  let ?ns = "Cluster_Namespace cluster"
  let ?present = "filter (\<lambda>t. t \<noteq> [] \<and> map_of ?meta t \<noteq> None) ?targets"
  let ?warn = "\<lambda>t. notFoundMessage ?kind t ?n ?ns"
  have plain': "\<forall>k\<in>set ?keys. HasPrefix k (clusterTakeAlongKeyFmt ?kind) \<longrightarrow> plainKey ?kind k"
    using plain by (simp add: TakeAlong_GetMetaType)
  have scan: "scanKeys ?kind ?keys [] = Inr ?targets"
    using scanKeys_plain [OF plain', of "[]"] by simp
  have run: "buildTakeAlongArray cluster metaType = copyKeys ?mt ?n ?ns ?meta ?targets ([], [])"
    by (simp add: buildTakeAlongArray_selected [OF kind] Let_def scan)
  have ne: "\<And>t. t \<in> set ?targets \<Longrightarrow> t \<noteq> []"
    using targets_not_Nil [OF plain'] by blast
  have nomark: "\<And>x. x \<in> set ?targets \<Longrightarrow> x \<notin> (\<lambda>t. TakenFrom ?mt @ t) ` set ?present"
    using apart by auto
  have "t0 \<notin> set ?present" using missing(2) by simp
  from copyKeys_other [OF this nomark [OF missing(1)]]
  have skipped: "map_of (fst (buildTakeAlongArray cluster metaType)) t0 = None"
    by (simp add: run)
  have "filter (\<lambda>t. t \<noteq> [] \<and> map_of ?meta t = None) ?targets =
        filter (\<lambda>t. map_of ?meta t = None) ?targets"
    by (rule filter_cong) (auto dest: ne)
  then have warnings: "snd (buildTakeAlongArray cluster metaType) =
      map ?warn (filter (\<lambda>t. map_of ?meta t = None) ?targets)"
    by (simp add: run copyKeys_errors)
  have "distinct (filter (\<lambda>t. map_of ?meta t = None) ?targets)"
    using targets_distinct [OF dist] by simp
  moreover have "t0 \<in> set (filter (\<lambda>t. map_of ?meta t = None) ?targets)"
    using missing by simp
  ultimately have "count_list (filter (\<lambda>t. map_of ?meta t = None) ?targets) t0 = 1"
    by (rule count_list_distinct)
  then have once: "count_list (snd (buildTakeAlongArray cluster metaType)) (?warn t0) = 1"
    unfolding warnings
    by (subst count_list_map_inj) (auto dest: notFoundMessage_inj)
  have copied: "\<forall>t\<in>set ?targets. map_of ?meta t \<noteq> None \<longrightarrow>
      map_of (fst (buildTakeAlongArray cluster metaType)) t = map_of ?meta t \<and>
      map_of (fst (buildTakeAlongArray cluster metaType)) (TakenFrom ?mt @ t) = Some []"
  proof (intro ballI impI)
    fix t
    assume t: "t \<in> set ?targets" and "map_of ?meta t \<noteq> None"
    then obtain v where v: "map_of ?meta t = Some v" by auto
    have 1: "map_of (fst (copyKeys ?mt ?n ?ns ?meta ?targets ([], []))) t = Some v"
      by (rule copyKeys_copied [OF t ne [OF t] v nomark [OF t]])
    have "TakenFrom ?mt @ t \<notin> set ?present"
    proof
      assume "TakenFrom ?mt @ t \<in> set ?present"
      then have "TakenFrom ?mt @ t \<in> set ?targets" by simp
      with apart t v show False by auto
    qed
    from copyKeys_marker [OF t ne [OF t] v this]
    have 2: "map_of (fst (copyKeys ?mt ?n ?ns ?meta ?targets ([], []))) (TakenFrom ?mt @ t) = Some []" .
    from 1 2 v
    show "map_of (fst (buildTakeAlongArray cluster metaType)) t = map_of ?meta t \<and>
      map_of (fst (buildTakeAlongArray cluster metaType)) (TakenFrom ?mt @ t) = Some []"
      by (simp add: run)
  qed
  from skipped warnings once copied show ?thesis by blast
qed

theorem collect_skips_missing_target_witness:
  "map_of (fst (buildTakeAlongArray missingCluster metaLabels)) ''missing'' = None \<and>
   snd (buildTakeAlongArray missingCluster metaLabels) =
     [notFoundMessage ''label'' ''missing'' ''workload'' ''team-a''] \<and>
   map_of (fst (buildTakeAlongArray missingCluster metaLabels)) ''foo'' = Some ''v'' \<and>
   map_of (fst (buildTakeAlongArray missingCluster metaLabels))
     ''taken-from-cluster-label.capi-to-argocd.foo'' = Some []"
proof -
  let ?r = "buildTakeAlongArray missingCluster metaLabels"
  have targets: "takeAlongTargets ''label'' (map fst (Cluster_Labels missingCluster)) =
      [''missing'', ''foo'']"
    by (simp add: missingCluster_def takeAlongTargets_def clusterTakeAlongKeyFmt_def HasPrefix_def)
  have lookups: "map_of (Cluster_Labels missingCluster) ''missing'' = None"
      "map_of (Cluster_Labels missingCluster) ''foo'' = Some ''v''"
    by (simp_all add: missingCluster_def)
  have names: "Cluster_Name missingCluster = ''workload''"
      "Cluster_Namespace missingCluster = ''team-a''"
    by (simp_all add: missingCluster_def)
  have kind: "metaLabels = metaAnnotations \<or> metaLabels = metaLabels" by simp
  have dist: "distinct (map fst (selectedMeta missingCluster metaLabels))"
    by (simp add: selectedMeta_labels missingCluster_def)
  have plain: "\<forall>k\<in>fst ` set (selectedMeta missingCluster metaLabels).
      HasPrefix k (TakeAlong (GetMetaType metaLabels)) \<longrightarrow>
      plainKey (MetaType_Name (GetMetaType metaLabels)) k"
    by (simp add: selectedMeta_labels TakeAlong_labels Name_labels missingCluster_def
          plainKey_def clusterTakeAlongKeyFmt_def HasPrefix_def)
  have apart: "\<forall>t\<in>set (takeAlongTargets (MetaType_Name (GetMetaType metaLabels))
                            (map fst (selectedMeta missingCluster metaLabels))).
                \<forall>t'\<in>set (takeAlongTargets (MetaType_Name (GetMetaType metaLabels))
                            (map fst (selectedMeta missingCluster metaLabels))).
                  map_of (selectedMeta missingCluster metaLabels) t' \<noteq> None \<longrightarrow>
                  t \<noteq> TakenFrom (GetMetaType metaLabels) @ t'"
    by (simp add: selectedMeta_labels Name_labels targets TakenFrom_labels lookups)
  have t0: "''missing'' \<in> set (takeAlongTargets (MetaType_Name (GetMetaType metaLabels))
                            (map fst (selectedMeta missingCluster metaLabels)))"
    by (simp add: selectedMeta_labels Name_labels targets)
  have absent: "map_of (selectedMeta missingCluster metaLabels) ''missing'' = None"
    by (simp add: selectedMeta_labels lookups)
  note spec = collect_skips_missing_target [OF kind dist plain apart t0 absent]
  from spec have 1: "map_of (fst ?r) ''missing'' = None" by (rule conjunct1)
  from spec have "snd ?r =
      map (\<lambda>t. notFoundMessage (MetaType_Name (GetMetaType metaLabels)) t
                 (Cluster_Name missingCluster) (Cluster_Namespace missingCluster))
        (filter (\<lambda>t. map_of (selectedMeta missingCluster metaLabels) t = None)
           (takeAlongTargets (MetaType_Name (GetMetaType metaLabels))
              (map fst (selectedMeta missingCluster metaLabels))))"
    by blast
  then have 2: "snd ?r = [notFoundMessage ''label'' ''missing'' ''workload'' ''team-a'']"
    by (simp add: selectedMeta_labels Name_labels targets lookups names)
  from spec have "\<forall>t\<in>set (takeAlongTargets (MetaType_Name (GetMetaType metaLabels))
                     (map fst (selectedMeta missingCluster metaLabels))).
            map_of (selectedMeta missingCluster metaLabels) t \<noteq> None \<longrightarrow>
            map_of (fst ?r) t = map_of (selectedMeta missingCluster metaLabels) t \<and>
            map_of (fst ?r) (TakenFrom (GetMetaType metaLabels) @ t) = Some []"
    by blast
  then have 3: "map_of (fst ?r) ''foo'' = Some ''v'' \<and>
      map_of (fst ?r) ''taken-from-cluster-label.capi-to-argocd.foo'' = Some []"
    by (simp add: selectedMeta_labels Name_labels targets lookups TakenFrom_labels)
  from 1 2 3 show ?thesis by blast
qed

text \<open>
  Without the condition on marker keys the claim C4 fails. In \<open>collisionCluster\<close> no key is
  malformed and the target \<^verbatim>\<open>missing\<close> is absent; the take-along key for
  \<^verbatim>\<open>taken-from-cluster-label.capi-to-argocd.acme/env\<close> names a target that the labels
  hold with the value \<^verbatim>\<open>z\<close>. Visited in the order written, the returned map holds that
  key with the empty string, the marker of \<^verbatim>\<open>acme/env\<close> written after it: the entry
  of the take-along key is lost. Visited in the reverse order the map holds the key with
  \<^verbatim>\<open>z\<close>, so the provenance marker of \<^verbatim>\<open>acme/env\<close> is not the empty string.
\<close>

theorem collect_marker_collision:
  "TakeAlong (GetMetaType metaLabels) \<notin> fst ` set (Cluster_Labels collisionCluster) \<and>
   map_of (Cluster_Labels collisionCluster) ''missing'' = None \<and>
   map_of (Cluster_Labels collisionCluster) ''acme/env'' = Some ''v'' \<and>
   map_of (Cluster_Labels collisionCluster)
     ''taken-from-cluster-label.capi-to-argocd.acme/env'' = Some ''z'' \<and>
   map_of (fst (buildTakeAlongArray collisionCluster metaLabels))
     ''taken-from-cluster-label.capi-to-argocd.acme/env'' = Some [] \<and>
   map_of (fst (buildTakeAlongArray
       (collisionCluster\<lparr>Cluster_Labels := rev (Cluster_Labels collisionCluster)\<rparr>) metaLabels))
     ''taken-from-cluster-label.capi-to-argocd.acme/env'' = Some ''z''"
proof (intro conjI)
  show "TakeAlong (GetMetaType metaLabels) \<notin> fst ` set (Cluster_Labels collisionCluster)"
    by (simp add: TakeAlong_labels collisionCluster_def)
  show "map_of (Cluster_Labels collisionCluster) ''missing'' = None"
    by (simp add: collisionCluster_def)
  show "map_of (Cluster_Labels collisionCluster) ''acme/env'' = Some ''v''"
    by (simp add: collisionCluster_def)
  show "map_of (Cluster_Labels collisionCluster)
     ''taken-from-cluster-label.capi-to-argocd.acme/env'' = Some ''z''"
    by (simp add: collisionCluster_def)
  show "map_of (fst (buildTakeAlongArray collisionCluster metaLabels))
     ''taken-from-cluster-label.capi-to-argocd.acme/env'' = Some []"
    by (simp add: collisionCluster_result)
  show "map_of (fst (buildTakeAlongArray
       (collisionCluster\<lparr>Cluster_Labels := rev (Cluster_Labels collisionCluster)\<rparr>) metaLabels))
     ''taken-from-cluster-label.capi-to-argocd.acme/env'' = Some ''z''"
    by (simp add: collisionCluster_rev_result)
qed

section \<open>Assembly\<close>

lemma NewArgoCluster_heads:
  assumes "Clusters (KubeConfig c) = cluster0 # cs" and "Users (KubeConfig c) = user0 # us"
  shows "NewArgoCluster g c s cluster =
     (let takeAlongLabels =
            (case cluster of None \<Rightarrow> ([], []) | Some cl \<Rightarrow> buildTakeAlongArray cl metaLabels);
          takeAlongAnnotations =
            (case cluster of None \<Rightarrow> ([], []) | Some cl \<Rightarrow> buildTakeAlongArray cl metaAnnotations)
      in (snd takeAlongLabels @ snd takeAlongAnnotations,
          Inr (\<lparr>NamespacedName = BuildNamespacedName g (Secret_Name s) (Secret_Namespace s),
                ClusterName = BuildClusterName g (NamedCluster_Name cluster0) (Secret_Namespace s),
                ClusterServer = Server (Cluster cluster0),
                ClusterLabels =
                  [(''capi-to-argocd/cluster-secret-name'', CapiCluster_Name c @ ''-kubeconfig''),
                   (''capi-to-argocd/cluster-namespace'', CapiCluster_Namespace c)],
                TakeAlongAnnotations = fst takeAlongAnnotations,
                TakeAlongLabels = fst takeAlongLabels,
                ClusterConfig =
                  \<lparr>TLSClientConfig =
                     Some \<lparr>CaData = Some (KubeCluster_CaData (Cluster cluster0)),
                           CertData = KubeUser_CertData (User user0),
                           KeyData = KubeUser_KeyData (User user0)\<rparr>,
                   BearerToken = Token (User user0)\<rparr>\<rparr>,
               None)))"
  using assms by (simp add: NewArgoCluster_def Let_def split: prod.splits)

lemma buildTakeAlongArray_labels_only:
  "buildTakeAlongArray (cl\<lparr>Cluster_Annotations := annotations\<rparr>) metaLabels =
     buildTakeAlongArray cl metaLabels"
  by (simp add: buildTakeAlongArray_def metaLabels_def metaAnnotations_def)

lemma buildTakeAlongArray_annotations_only:
  "buildTakeAlongArray (cl\<lparr>Cluster_Labels := labels\<rparr>) metaAnnotations =
     buildTakeAlongArray cl metaAnnotations"
  by (simp add: buildTakeAlongArray_def metaLabels_def metaAnnotations_def)

lemma buildTakeAlongArray_malformed:
  assumes "metaType = metaAnnotations \<or> metaType = metaLabels"
    and "TakeAlong (GetMetaType metaType) \<in> fst ` set (selectedMeta cluster metaType)"
  shows "fst (buildTakeAlongArray cluster metaType) = []"
proof -
  let ?kind = "MetaType_Name (GetMetaType metaType)"
  let ?keys = "map fst (selectedMeta cluster metaType)"
  from assms(2) have mem: "clusterTakeAlongKeyFmt ?kind \<in> set ?keys"
    by (simp add: TakeAlong_GetMetaType)
  obtain e0 where "extractTakeAlongMeta ?kind (clusterTakeAlongKeyFmt ?kind) = Inl e0"
    using extract_empty by blast
  from scanKeys_error [OF mem this, of "[]"]
  obtain err where "scanKeys ?kind ?keys [] = Inl err" by blast
  then show ?thesis
    by (simp add: buildTakeAlongArray_selected [OF assms(1)] Let_def)
qed

lemma malformedCluster_annotations:
  "buildTakeAlongArray malformedCluster metaAnnotations =
     ([(''owner'', ''ops''), (''taken-from-cluster-annotation.capi-to-argocd.owner'', [])], [])"
proof -
  have idx: "Index ''owner'' (TakeAlong (GetMetaType metaAnnotations)) = None"
    by (simp add: TakeAlong_annotations HasPrefix_def)
  have "buildTakeAlongArray malformedCluster metaAnnotations =
          ([(''owner'', ''ops''), (TakenFrom (GetMetaType metaAnnotations) @ ''owner'', [])], [])"
    using idx
    by (intro collect_single)
      (simp_all add: selectedMeta_annotations TakeAlong_annotations malformedCluster_def
         HasPrefix_def)
  then show ?thesis by (simp add: TakenFrom_annotations)
qed



text \<open>
  C9, as the code has it. When the kubeconfig lists at least one cluster and one user,
  \<^verbatim>\<open>NewArgoCluster\<close> returns an Argo cluster and a nil error, whatever the cluster
  resource holds. Without a cluster resource both take-along maps are empty. With one,
  the take-along labels are what the label scan returns, which is the same for any
  annotations of the resource, and the take-along annotations are what the annotation
  scan returns, which is the same for any labels. A malformed key among the labels makes
  the take-along labels empty, a malformed key among the annotations makes the take-along
  annotations empty, and the lines logged are the messages of the label scan followed by
  those of the annotation scan.
\<close>

theorem NewArgoCluster_completes:
  assumes "Clusters (KubeConfig c) \<noteq> []" and "Users (KubeConfig c) \<noteq> []"
  shows "\<exists>a. snd (NewArgoCluster g c s cluster) = Inr (a, None) \<and>
           (case cluster of
              None \<Rightarrow> TakeAlongLabels a = [] \<and> TakeAlongAnnotations a = []
            | Some cl \<Rightarrow>
                TakeAlongLabels a =
                  fst (buildTakeAlongArray (cl\<lparr>Cluster_Annotations := anyAnnotations\<rparr>) metaLabels) \<and>
                TakeAlongAnnotations a =
                  fst (buildTakeAlongArray (cl\<lparr>Cluster_Labels := anyLabels\<rparr>) metaAnnotations) \<and>
                (TakeAlong (GetMetaType metaLabels) \<in> fst ` set (Cluster_Labels cl)
                   \<longrightarrow> TakeAlongLabels a = []) \<and>
                (TakeAlong (GetMetaType metaAnnotations) \<in> fst ` set (Cluster_Annotations cl)
                   \<longrightarrow> TakeAlongAnnotations a = []) \<and>
                fst (NewArgoCluster g c s cluster) =
                  snd (buildTakeAlongArray cl metaLabels)
                    @ snd (buildTakeAlongArray cl metaAnnotations))"
proof -
  from assms obtain cluster0 cs user0 us
    where heads: "Clusters (KubeConfig c) = cluster0 # cs" "Users (KubeConfig c) = user0 # us"
    by (cases "Clusters (KubeConfig c)"; cases "Users (KubeConfig c)") auto
  show ?thesis
  proof (cases cluster)
    case None
    then show ?thesis
      by (simp add: NewArgoCluster_heads [OF heads])
  next
    case (Some cl)
    have l: "TakeAlong (GetMetaType metaLabels) \<in> fst ` set (Cluster_Labels cl)
               \<Longrightarrow> fst (buildTakeAlongArray cl metaLabels) = []"
      using buildTakeAlongArray_malformed [of metaLabels cl]
      by (simp add: selectedMeta_labels)
    have a: "TakeAlong (GetMetaType metaAnnotations) \<in> fst ` set (Cluster_Annotations cl)
               \<Longrightarrow> fst (buildTakeAlongArray cl metaAnnotations) = []"
      using buildTakeAlongArray_malformed [of metaAnnotations cl]
      by (simp add: selectedMeta_annotations)
    from Some l a show ?thesis
      by (simp add: NewArgoCluster_heads [OF heads] Let_def
            buildTakeAlongArray_labels_only buildTakeAlongArray_annotations_only)
  qed
qed

theorem NewArgoCluster_completes_witness:
  "\<exists>a. snd (NewArgoCluster globalsOff oneEntry sourceSecret (Some malformedCluster)) =
          Inr (a, None) \<and>
        TakeAlongLabels a = [] \<and>
        TakeAlongAnnotations a =
          [(''owner'', ''ops''), (''taken-from-cluster-annotation.capi-to-argocd.owner'', [])]"
proof -
  have c: "Clusters (KubeConfig oneEntry) \<noteq> []" and u: "Users (KubeConfig oneEntry) \<noteq> []"
    by (simp_all add: oneEntry_def)
  have bad: "TakeAlong (GetMetaType metaLabels) \<in> fst ` set (Cluster_Labels malformedCluster)"
    by (simp add: TakeAlong_labels malformedCluster_def)
  from NewArgoCluster_completes [OF c u, of globalsOff sourceSecret "Some malformedCluster"
      "Cluster_Annotations malformedCluster" "Cluster_Labels malformedCluster"]
  obtain a where ret: "snd (NewArgoCluster globalsOff oneEntry sourceSecret (Some malformedCluster)) =
          Inr (a, None)"
    and ann: "TakeAlongAnnotations a = fst (buildTakeAlongArray malformedCluster metaAnnotations)"
    and lab: "TakeAlong (GetMetaType metaLabels) \<in> fst ` set (Cluster_Labels malformedCluster)
                \<longrightarrow> TakeAlongLabels a = []"
    by auto
  from lab bad have "TakeAlongLabels a = []" by (rule mp)
  with ret ann show ?thesis by (simp add: malformedCluster_annotations)
qed

text \<open>
  The claim C9 speaks of every input. For a kubeconfig that lists no cluster,
  \<^verbatim>\<open>c.KubeConfig.Clusters[0]\<close> on line 111 is out of range and \<^verbatim>\<open>NewArgoCluster\<close> panics:
  it returns no Argo cluster.
\<close>

theorem NewArgoCluster_panics_without_entries:
  "NewArgoCluster globalsOff noEntries sourceSecret None = ([], Inl IndexOutOfRange)"
  by (simp add: NewArgoCluster_def noEntries_def)

end
